theory Spec2Isabelle
  imports Main "HOL-Library.Word"
begin

section \<open>Themis: the port manager and the application-port storage\<close>

text \<open>
  The development embeds two Go packages of the Themis port registry:
  \<^item> the port manager (\<^verbatim>\<open>PortManager\<close>: \<^verbatim>\<open>IsPortAvailable\<close>, \<^verbatim>\<open>checkPortBySocket\<close>,
    \<^verbatim>\<open>GetRandomPort\<close>, \<^verbatim>\<open>GetRandomPorts\<close>, \<^verbatim>\<open>markPortAsUsed\<close>, \<^verbatim>\<open>ReleasePort\<close>,
    \<^verbatim>\<open>SetPortRange\<close>, \<^verbatim>\<open>GetPortRange\<close>);
  \<^item> the storage (\<^verbatim>\<open>AppPortStorage\<close>: \<^verbatim>\<open>LoadFromFile\<close>, \<^verbatim>\<open>saveToFile\<close>, \<^verbatim>\<open>StartAutoSync\<close>,
    \<^verbatim>\<open>StopAutoSync\<close>, \<^verbatim>\<open>SetAppPort\<close>, \<^verbatim>\<open>GetAppPort\<close>, \<^verbatim>\<open>DeleteAppPort\<close>, \<^verbatim>\<open>HasApp\<close>,
    \<^verbatim>\<open>GetAllApps\<close>, \<^verbatim>\<open>SyncToFile\<close>).

  Go's \<^verbatim>\<open>int\<close> is taken as the 64-bit two's complement integer of the usual targets:
  arithmetic wraps, comparisons are signed (\<open>sint\<close>). What the code asks of its
  surroundings (the random generator, the network stack, the file system, the clock, the
  JSON codec of the standard library) is an explicit argument of the model; every panic
  the code can raise is a value \<open>Inl\<close> of the result. An allocation that the runtime
  accepts is taken to succeed.
\<close>

subsection \<open>Values, errors and panics\<close>

type_synonym go_int = "64 word"

text \<open>One constructor for each message the code builds with \<^verbatim>\<open>fmt.Errorf\<close>, carrying the
  values the message is formatted from.\<close>

datatype error =
    NoAvailablePort
  | InvalidCount
  | PartialResult nat go_int
  | InvalidRange go_int go_int
  | EmptyName
  | InvalidPort go_int
  | NotFound string
  | MkdirFailure
  | ReadFailure
  | ParseFailure
  | MarshalFailure
  | WriteFailure

datatype panic =
    IntnNonPositive
  | MakesliceCapOutOfRange
  | TickerNonPositive
  | CloseOfClosedChannel

subsection \<open>The port manager\<close>

record PortManager =
  minPort :: go_int
  maxPort :: go_int
  usedPorts :: "go_int \<rightharpoonup> bool"

definition NewPortManager :: "go_int \<Rightarrow> go_int \<Rightarrow> PortManager" where
  "NewPortManager lo hi = \<lparr>minPort = lo, maxPort = hi, usedPorts = Map.empty\<rparr>"

text \<open>Reading a Go \<^verbatim>\<open>map[int]bool\<close> at a missing key gives \<^verbatim>\<open>false\<close>.\<close>

definition used :: "PortManager \<Rightarrow> go_int \<Rightarrow> bool" where
  "used pm port = (case usedPorts pm port of None \<Rightarrow> False | Some b \<Rightarrow> b)"

text \<open>
  The network stack as one call of \<^verbatim>\<open>checkPortBySocket\<close> meets it: whether
  \<^verbatim>\<open>net.Listen("tcp", ":port")\<close>, \<^verbatim>\<open>net.ResolveUDPAddr("udp", ":port")\<close> and
  \<^verbatim>\<open>net.ListenUDP\<close> succeed. The calls made are recorded, in order, so that a result
  obtained without any probe can be told from one obtained with probes.
\<close>

record netstack =
  tcp_listen_ok :: "go_int \<Rightarrow> bool"
  udp_resolve_ok :: "go_int \<Rightarrow> bool"
  udp_listen_ok :: "go_int \<Rightarrow> bool"

datatype netcall =
    TcpListen go_int
  | TcpClose go_int
  | UdpResolve go_int
  | UdpListen go_int
  | UdpClose go_int

definition checkPortBySocket :: "netstack \<Rightarrow> go_int \<Rightarrow> bool \<times> netcall list" where
  "checkPortBySocket os port =
     (if \<not> tcp_listen_ok os port then (False, [TcpListen port])
      else if \<not> udp_resolve_ok os port
        then (False, [TcpListen port, TcpClose port, UdpResolve port])
      else if \<not> udp_listen_ok os port
        then (False, [TcpListen port, TcpClose port, UdpResolve port, UdpListen port])
      else (True, [TcpListen port, TcpClose port, UdpResolve port, UdpListen port,
                   UdpClose port]))"

definition IsPortAvailable :: "netstack \<Rightarrow> PortManager \<Rightarrow> go_int \<Rightarrow> bool \<times> netcall list" where
  "IsPortAvailable os pm port =
     (if sint port < sint (minPort pm) \<or> sint (maxPort pm) < sint port then (False, [])
      else if used pm port then (False, [])
      else checkPortBySocket os port)"

definition markPortAsUsed :: "PortManager \<Rightarrow> go_int \<Rightarrow> PortManager" where
  "markPortAsUsed pm port = pm\<lparr>usedPorts := (usedPorts pm)(port \<mapsto> True)\<rparr>"

definition ReleasePort :: "PortManager \<Rightarrow> go_int \<Rightarrow> PortManager" where
  "ReleasePort pm port = pm\<lparr>usedPorts := (usedPorts pm)(port := None)\<rparr>"

definition SetPortRange :: "PortManager \<Rightarrow> go_int \<Rightarrow> go_int \<Rightarrow> error option \<times> PortManager" where
  "SetPortRange pm lo hi =
     (if sint lo \<le> 0 \<or> sint hi \<le> 0 \<or> sint hi < sint lo then (Some (InvalidRange lo hi), pm)
      else (None, pm\<lparr>minPort := lo, maxPort := hi\<rparr>))"

definition GetPortRange :: "PortManager \<Rightarrow> go_int \<times> go_int" where
  "GetPortRange pm = (minPort pm, maxPort pm)"

text \<open>
  \<^verbatim>\<open>rand.Intn(n)\<close> panics when \<open>n \<le> 0\<close> and otherwise returns some value of \<open>[0, n)\<close>.
  The generator is an argument: \<open>raw\<close> is the number it is about to produce, reduced
  into the interval, so that every value of \<open>[0, n)\<close> is a possible draw.
\<close>

definition Intn :: "nat \<Rightarrow> go_int \<Rightarrow> panic + go_int" where
  "Intn raw n = (if sint n \<le> 0 then Inl IntnNonPositive else Inr (word_of_nat (raw mod unat n)))"

text \<open>
  What the \<open>i\<close>-th iteration of an allocation loop meets: the raw number behind its
  random draw and the network stack at that moment.
\<close>

type_synonym world = "nat \<Rightarrow> nat \<times> netstack"

text \<open>
  \<^verbatim>\<open>GetRandomPort\<close>. The result carries the returned pair \<^verbatim>\<open>(int, error)\<close>, the manager
  after the call and the number of candidates drawn.
\<close>

function GetRandomPort_loop ::
  "world \<Rightarrow> PortManager \<Rightarrow> nat \<Rightarrow> panic + ((go_int \<times> error option) \<times> PortManager \<times> nat)" where
  "GetRandomPort_loop w pm i =
     (if i < 100 then
        (case Intn (fst (w i)) (maxPort pm - minPort pm + 1) of
           Inl p \<Rightarrow> Inl p
         | Inr r \<Rightarrow>
             (let port = r + minPort pm in
              if fst (IsPortAvailable (snd (w i)) pm port)
              then Inr ((port, None), markPortAsUsed pm port, Suc i)
              else GetRandomPort_loop w pm (Suc i)))
      else Inr ((0, Some NoAvailablePort), pm, i))"
  by pat_completeness auto
termination
  by (relation "measure (\<lambda>(w, pm, i). 100 - i)") auto

declare GetRandomPort_loop.simps [simp del]

definition GetRandomPort ::
  "world \<Rightarrow> PortManager \<Rightarrow> panic + ((go_int \<times> error option) \<times> PortManager \<times> nat)" where
  "GetRandomPort w pm = GetRandomPort_loop w pm 0"

text \<open>
  \<^verbatim>\<open>GetRandomPorts\<close>. After the test of \<open>count\<close> the code allocates the result with
  \<^verbatim>\<open>make([]int, 0, count)\<close>; the runtime panics (\<^verbatim>\<open>makeslice: cap out of range\<close>) when
  the \<open>8 * count\<close> bytes asked for exceed \<^verbatim>\<open>maxAlloc\<close>, which is \<open>2\<^sup>4\<^sup>8\<close> on the 64-bit
  targets. The loop runs while \<^verbatim>\<open>i < count*100 && len(ports) < count\<close>, the product
  taken in 64 bits.
\<close>

definition maxAlloc :: int where
  "maxAlloc = 2 ^ 48"

function GetRandomPorts_loop ::
  "world \<Rightarrow> go_int \<Rightarrow> PortManager \<Rightarrow> go_int list \<Rightarrow> nat \<Rightarrow> panic + (go_int list \<times> PortManager \<times> nat)" where
  "GetRandomPorts_loop w count pm ports i =
     (if int i < sint (count * 100) \<and> int (length ports) < sint count then
        (case Intn (fst (w i)) (maxPort pm - minPort pm + 1) of
           Inl p \<Rightarrow> Inl p
         | Inr r \<Rightarrow>
             (let port = r + minPort pm in
              if fst (IsPortAvailable (snd (w i)) pm port)
              then (if port \<in> set ports
                    then GetRandomPorts_loop w count pm ports (Suc i)
                    else GetRandomPorts_loop w count (markPortAsUsed pm port) (ports @ [port]) (Suc i))
              else GetRandomPorts_loop w count pm ports (Suc i)))
      else Inr (ports, pm, i))"
  by pat_completeness auto
termination
  by (relation "measure (\<lambda>(w, count, pm, ports, i). nat (sint (count * 100)) - i)") auto

declare GetRandomPorts_loop.simps [simp del]

definition GetRandomPorts ::
  "world \<Rightarrow> PortManager \<Rightarrow> go_int \<Rightarrow>
     panic + ((go_int list option \<times> error option) \<times> PortManager \<times> nat)" where
  "GetRandomPorts w pm count =
     (if sint count \<le> 0 then Inr ((None, Some InvalidCount), pm, 0)
      else if maxAlloc < 8 * sint count then Inl MakesliceCapOutOfRange
      else (case GetRandomPorts_loop w count pm [] 0 of
              Inl p \<Rightarrow> Inl p
            | Inr (ports, pm', n) \<Rightarrow>
                if int (length ports) < sint count
                then Inr ((Some ports, Some (PartialResult (length ports) count)), pm', n)
                else Inr ((Some ports, None), pm', n)))"

text \<open>
  Names for what an allocation loop computes in its \<open>i\<close>-th iteration on a manager
  whose range admits a draw: the candidate \<^verbatim>\<open>rand.Intn(maxPort-minPort+1) + minPort\<close>,
  and whether \<^verbatim>\<open>IsPortAvailable\<close> accepts it.
\<close>

definition candidate :: "world \<Rightarrow> PortManager \<Rightarrow> nat \<Rightarrow> go_int" where
  "candidate w pm i =
     word_of_nat (fst (w i) mod unat (maxPort pm - minPort pm + 1)) + minPort pm"

definition passes :: "world \<Rightarrow> PortManager \<Rightarrow> nat \<Rightarrow> bool" where
  "passes w pm i = fst (IsPortAvailable (snd (w i)) pm (candidate w pm i))"

text \<open>
  The ports that \<^verbatim>\<open>GetRandomPorts\<close> has collected after \<open>k\<close> draws, as long as nothing
  ends its loop: the candidates accepted by \<^verbatim>\<open>IsPortAvailable\<close> on the manager the call
  began with, each once, in the order of their first acceptance.
\<close>

fun picks :: "world \<Rightarrow> PortManager \<Rightarrow> nat \<Rightarrow> go_int list" where
  "picks w pm 0 = []"
| "picks w pm (Suc k) =
     (if passes w pm k \<and> candidate w pm k \<notin> set (picks w pm k)
      then picks w pm k @ [candidate w pm k]
      else picks w pm k)"

text \<open>Surroundings used in examples: a network stack on which every bind succeeds, one
  on which only a single port can be bound, and worlds that stay the same at every
  iteration.\<close>

definition all_free :: netstack where
  "all_free = \<lparr>tcp_listen_ok = (\<lambda>p. True), udp_resolve_ok = (\<lambda>p. True),
               udp_listen_ok = (\<lambda>p. True)\<rparr>"

definition only_free :: "go_int \<Rightarrow> netstack" where
  "only_free q = \<lparr>tcp_listen_ok = (\<lambda>p. p = q), udp_resolve_ok = (\<lambda>p. True),
                  udp_listen_ok = (\<lambda>p. p = q)\<rparr>"

definition steady :: "nat \<Rightarrow> netstack \<Rightarrow> world" where
  "steady raw os = (\<lambda>i. (raw, os))"

definition counting :: "netstack \<Rightarrow> world" where
  "counting os = (\<lambda>i. (i, os))"

text \<open>
  A sequence of calls on one manager by one caller, each finished before the next
  begins. A panic ends the sequence.
\<close>

datatype pm_call =
    CallIsPortAvailable netstack go_int
  | CallGetRandomPort world
  | CallGetRandomPorts world go_int
  | CallReleasePort go_int
  | CallSetPortRange go_int go_int

fun pm_call_step :: "pm_call \<Rightarrow> PortManager \<Rightarrow> panic + PortManager" where
  "pm_call_step (CallIsPortAvailable os port) pm = Inr pm"
| "pm_call_step (CallGetRandomPort w) pm =
     (case GetRandomPort w pm of Inl p \<Rightarrow> Inl p | Inr (r, pm', n) \<Rightarrow> Inr pm')"
| "pm_call_step (CallGetRandomPorts w count) pm =
     (case GetRandomPorts w pm count of Inl p \<Rightarrow> Inl p | Inr (r, pm', n) \<Rightarrow> Inr pm')"
| "pm_call_step (CallReleasePort port) pm = Inr (ReleasePort pm port)"
| "pm_call_step (CallSetPortRange lo hi) pm = Inr (snd (SetPortRange pm lo hi))"

fun pm_calls :: "pm_call list \<Rightarrow> PortManager \<Rightarrow> panic + PortManager" where
  "pm_calls [] pm = Inr pm"
| "pm_calls (c # cs) pm =
     (case pm_call_step c pm of Inl p \<Rightarrow> Inl p | Inr pm' \<Rightarrow> pm_calls cs pm')"

subsection \<open>Concurrent allocations\<close>

text \<open>
  Several goroutines inside \<^verbatim>\<open>GetRandomPort\<close> on one shared manager. The mutex
  \<^verbatim>\<open>pm.mu\<close> is held only inside \<^verbatim>\<open>IsPortAvailable\<close>, around the read of
  \<^verbatim>\<open>usedPorts[port]\<close> (\<^verbatim>\<open>RLock\<close> ... \<^verbatim>\<open>RUnlock\<close>), and inside \<^verbatim>\<open>markPortAsUsed\<close>, around
  the write (\<^verbatim>\<open>Lock\<close> ... \<^verbatim>\<open>Unlock\<close>). One allocation attempt is therefore four atomic
  actions, between which other goroutines may run:
  \<^item> \<open>AtLoop i\<close>: the loop test, the draw and the range test of \<^verbatim>\<open>IsPortAvailable\<close>;
  \<^item> \<open>AtCheck i port\<close>: the read of \<^verbatim>\<open>usedPorts[port]\<close> under the read lock;
  \<^item> \<open>AtProbe i port\<close>: \<^verbatim>\<open>checkPortBySocket\<close>, outside any lock;
  \<^item> \<open>AtMark i port\<close>: \<^verbatim>\<open>markPortAsUsed\<close> under the write lock, and the return.
\<close>

datatype alloc_pc =
    AtLoop nat
  | AtCheck nat go_int
  | AtProbe nat go_int
  | AtMark nat go_int
  | Returned go_int "error option"
  | Panicked panic

fun alloc_step :: "nat \<times> netstack \<Rightarrow> PortManager \<Rightarrow> alloc_pc \<Rightarrow> PortManager \<times> alloc_pc" where
  "alloc_step e pm (AtLoop i) =
     (if i < 100 then
        (case Intn (fst e) (maxPort pm - minPort pm + 1) of
           Inl p \<Rightarrow> (pm, Panicked p)
         | Inr r \<Rightarrow>
             (let port = r + minPort pm in
              if sint port < sint (minPort pm) \<or> sint (maxPort pm) < sint port
              then (pm, AtLoop (Suc i))
              else (pm, AtCheck i port)))
      else (pm, Returned 0 (Some NoAvailablePort)))"
| "alloc_step e pm (AtCheck i port) =
     (if used pm port then (pm, AtLoop (Suc i)) else (pm, AtProbe i port))"
| "alloc_step e pm (AtProbe i port) =
     (if fst (checkPortBySocket (snd e) port) then (pm, AtMark i port)
      else (pm, AtLoop (Suc i)))"
| "alloc_step e pm (AtMark i port) = (markPortAsUsed pm port, Returned port None)"
| "alloc_step e pm (Returned port err) = (pm, Returned port err)"
| "alloc_step e pm (Panicked p) = (pm, Panicked p)"

text \<open>
  A schedule names, action by action, the goroutine that moves and what it meets (its
  draw, the network stack).
\<close>

fun run_schedule ::
  "(nat \<times> (nat \<times> netstack)) list \<Rightarrow> PortManager \<times> alloc_pc list \<Rightarrow> PortManager \<times> alloc_pc list" where
  "run_schedule [] st = st"
| "run_schedule ((t, e) # sch) (pm, ts) =
     (if t < length ts
      then (case alloc_step e pm (ts ! t) of (pm', pc') \<Rightarrow> run_schedule sch (pm', ts[t := pc']))
      else run_schedule sch (pm, ts))"

text \<open>One goroutine running alone to its end, its \<open>i\<close>-th iteration meeting \<open>w i\<close>.\<close>

fun alloc_rank :: "alloc_pc \<Rightarrow> nat" where
  "alloc_rank (AtLoop i) = 4 * (101 - i)"
| "alloc_rank (AtCheck i port) = 4 * (101 - i) - 1"
| "alloc_rank (AtProbe i port) = 4 * (101 - i) - 2"
| "alloc_rank (AtMark i port) = 4 * (101 - i) - 3"
| "alloc_rank (Returned port err) = 0"
| "alloc_rank (Panicked p) = 0"

fun alloc_iter :: "alloc_pc \<Rightarrow> nat option" where
  "alloc_iter (AtLoop i) = Some i"
| "alloc_iter (AtCheck i port) = Some i"
| "alloc_iter (AtProbe i port) = Some i"
| "alloc_iter (AtMark i port) = Some i"
| "alloc_iter (Returned port err) = None"
| "alloc_iter (Panicked p) = None"

function run_alone :: "world \<Rightarrow> PortManager \<Rightarrow> alloc_pc \<Rightarrow> PortManager \<times> alloc_pc" where
  "run_alone w pm pc =
     (case alloc_iter pc of
        None \<Rightarrow> (pm, pc)
      | Some i \<Rightarrow>
          if 100 < i then (pm, pc)
          else (case alloc_step (w i) pm pc of (pm', pc') \<Rightarrow> run_alone w pm' pc'))"
  by pat_completeness auto
termination
  apply (relation "measure (\<lambda>(w, pm, pc). alloc_rank pc)")
   apply simp
  subgoal for w pm pc
    by (cases pc) (auto simp: Let_def split: if_splits sum.splits)
  done

declare run_alone.simps [simp del]

subsection \<open>The application-port storage\<close>

type_synonym bytes = "8 word list"

text \<open>\<^verbatim>\<open>PortData\<close>, the snapshot written to the file. Its map may be \<^verbatim>\<open>nil\<close> after decoding.\<close>

record PortData =
  AppPorts :: "(string \<rightharpoonup> go_int) option"
  Timestamp :: "64 word"
  Version :: string

text \<open>
  The standard library as the storage uses it: \<^verbatim>\<open>json.MarshalIndent\<close> and
  \<^verbatim>\<open>json.Unmarshal\<close> on \<^verbatim>\<open>PortData\<close> (\<open>None\<close> when they return an error) and
  \<^verbatim>\<open>time.Now().Unix()\<close>.
\<close>

record stdlib =
  json_MarshalIndent :: "PortData \<Rightarrow> bytes option"
  json_Unmarshal :: "bytes \<Rightarrow> PortData option"
  time_Now_Unix :: "64 word"

text \<open>
  The file system: the contents of the regular files, and whether
  \<^verbatim>\<open>os.MkdirAll(filepath.Dir(path), 0755)\<close>, \<^verbatim>\<open>os.ReadFile(path)\<close> and
  \<^verbatim>\<open>os.WriteFile(path, data, 0644)\<close> succeed for a data file \<open>path\<close>. \<^verbatim>\<open>os.Stat\<close>
  reports a path as not existing exactly when it holds no file. A write that fails is
  taken to leave the file as it was; no result below depends on this.
\<close>

record filesys =
  files :: "string \<rightharpoonup> bytes"
  mkdirall_ok :: "string \<Rightarrow> bool"
  readfile_ok :: "string \<Rightarrow> bool"
  writefile_ok :: "string \<Rightarrow> bool"

text \<open>
  \<^verbatim>\<open>AppPortStorage\<close>. Of the channel \<^verbatim>\<open>stopChan\<close> the model keeps whether it is closed;
  of the wait group \<^verbatim>\<open>wg\<close> its counter, which is the number of flush goroutines started
  by \<^verbatim>\<open>StartAutoSync\<close> that have not yet returned.
\<close>

record AppPortStorage =
  appPorts :: "string \<rightharpoonup> go_int"
  dataFile :: string
  syncInterval :: "64 word"
  stopClosed :: bool
  wg :: nat

definition NewAppPortStorage :: "string \<Rightarrow> 64 word \<Rightarrow> AppPortStorage" where
  "NewAppPortStorage path interval =
     \<lparr>appPorts = Map.empty, dataFile = path, syncInterval = interval,
      stopClosed = False, wg = 0\<rparr>"

text \<open>The \<^verbatim>\<open>PortData\<close> that \<^verbatim>\<open>saveToFile\<close> builds under the read lock: a copy of the
  map, the time of the call and the version \<^verbatim>\<open>"1.0"\<close>.\<close>

definition snapshot :: "stdlib \<Rightarrow> AppPortStorage \<Rightarrow> PortData" where
  "snapshot lib s =
     \<lparr>AppPorts = Some (appPorts s), Timestamp = time_Now_Unix lib, Version = ''1.0''\<rparr>"

definition saveToFile :: "stdlib \<Rightarrow> AppPortStorage \<Rightarrow> filesys \<Rightarrow> error option \<times> filesys" where
  "saveToFile lib s fs =
     (let portData = snapshot lib s
      in case json_MarshalIndent lib portData of
           None \<Rightarrow> (Some MarshalFailure, fs)
         | Some data \<Rightarrow>
             if \<not> mkdirall_ok fs (dataFile s) then (Some MkdirFailure, fs)
             else if \<not> writefile_ok fs (dataFile s) then (Some WriteFailure, fs)
             else (None, fs\<lparr>files := (files fs)(dataFile s \<mapsto> data)\<rparr>))"

definition LoadFromFile ::
  "stdlib \<Rightarrow> AppPortStorage \<Rightarrow> filesys \<Rightarrow> error option \<times> AppPortStorage \<times> filesys" where
  "LoadFromFile lib s fs =
     (if \<not> mkdirall_ok fs (dataFile s) then (Some MkdirFailure, s, fs)
      else case files fs (dataFile s) of
             None \<Rightarrow> (case saveToFile lib s fs of (err, fs') \<Rightarrow> (err, s, fs'))
           | Some data \<Rightarrow>
               if \<not> readfile_ok fs (dataFile s) then (Some ReadFailure, s, fs)
               else if length data = 0 then (None, s, fs)
               else (case json_Unmarshal lib data of
                       None \<Rightarrow> (Some ParseFailure, s, fs)
                     | Some portData \<Rightarrow>
                         (None,
                          s\<lparr>appPorts := (case AppPorts portData of
                                           None \<Rightarrow> Map.empty
                                         | Some m \<Rightarrow> m)\<rparr>,
                          fs)))"


definition GetAppPort :: "AppPortStorage \<Rightarrow> string \<Rightarrow> go_int \<times> error option" where
  "GetAppPort s appName =
     (if appName = [] then (0, Some EmptyName)
      else case appPorts s appName of
             None \<Rightarrow> (0, Some (NotFound appName))
           | Some port \<Rightarrow> (port, None))"

definition DeleteAppPort ::
  "stdlib \<Rightarrow> AppPortStorage \<Rightarrow> string \<Rightarrow> filesys \<Rightarrow> error option \<times> AppPortStorage \<times> filesys" where
  "DeleteAppPort lib s appName fs =
     (if appName = [] then (Some EmptyName, s, fs)
      else case appPorts s appName of
             None \<Rightarrow> (Some (NotFound appName), s, fs)
           | Some port \<Rightarrow>
               (let s' = s\<lparr>appPorts := (appPorts s)(appName := None)\<rparr>
                in case saveToFile lib s' fs of (err, fs') \<Rightarrow> (err, s', fs')))"

definition HasApp :: "AppPortStorage \<Rightarrow> string \<Rightarrow> bool" where
  "HasApp s appName = (appPorts s appName \<noteq> None)"

definition GetAllApps :: "AppPortStorage \<Rightarrow> (string \<rightharpoonup> go_int)" where
  "GetAllApps s = appPorts s"


text \<open>
  \<^verbatim>\<open>StartAutoSync\<close> adds one to the wait group and starts a goroutine, which creates a
  ticker (\<^verbatim>\<open>time.NewTicker\<close> panics on a non-positive interval) and then, until
  \<^verbatim>\<open>stopChan\<close> is closed, flushes at each tick. The function tests nothing before it
  starts the goroutine.
\<close>

definition StartAutoSync :: "AppPortStorage \<Rightarrow> panic + AppPortStorage" where
  "StartAutoSync s =
     (if sint (syncInterval s) \<le> 0 then Inl TickerNonPositive
      else Inr (s\<lparr>wg := wg s + 1\<rparr>))"

text \<open>
  \<^verbatim>\<open>StopAutoSync\<close> closes \<^verbatim>\<open>stopChan\<close> (closing a closed channel panics), waits until
  every flush goroutine has returned and flushes once more; the error of that flush is
  dropped.
\<close>

definition StopAutoSync ::
  "stdlib \<Rightarrow> AppPortStorage \<Rightarrow> filesys \<Rightarrow> panic + (AppPortStorage \<times> filesys)" where
  "StopAutoSync lib s fs =
     (if stopClosed s then Inl CloseOfClosedChannel
      else (let s' = s\<lparr>stopClosed := True, wg := 0\<rparr>
            in Inr (s', snd (saveToFile lib s' fs))))"

text \<open>
  The life of one storage as a sequence of events: calls of \<^verbatim>\<open>StartAutoSync\<close> and
  \<^verbatim>\<open>StopAutoSync\<close>, a tick of a running flush goroutine (which flushes and logs a
  failure), and a flush goroutine returning once \<^verbatim>\<open>stopChan\<close> is closed.
\<close>

datatype sync_event = EvStart | EvTick | EvLoopExit | EvStop

fun sync_step ::
  "stdlib \<Rightarrow> sync_event \<Rightarrow> AppPortStorage \<times> filesys \<Rightarrow> panic + (AppPortStorage \<times> filesys)" where
  "sync_step lib EvStart (s, fs) =
     (case StartAutoSync s of Inl p \<Rightarrow> Inl p | Inr s' \<Rightarrow> Inr (s', fs))"
| "sync_step lib EvTick (s, fs) =
     (if 0 < wg s then Inr (s, snd (saveToFile lib s fs)) else Inr (s, fs))"
| "sync_step lib EvLoopExit (s, fs) =
     (if 0 < wg s \<and> stopClosed s then Inr (s\<lparr>wg := wg s - 1\<rparr>, fs) else Inr (s, fs))"
| "sync_step lib EvStop (s, fs) = StopAutoSync lib s fs"

fun sync_run ::
  "stdlib \<Rightarrow> sync_event list \<Rightarrow> AppPortStorage \<times> filesys \<Rightarrow> panic + (AppPortStorage \<times> filesys)" where
  "sync_run lib [] st = Inr st"
| "sync_run lib (e # es) st =
     (case sync_step lib e st of Inl p \<Rightarrow> Inl p | Inr st' \<Rightarrow> sync_run lib es st')"

text \<open>
  What \<^verbatim>\<open>encoding/json\<close> does to a string: its encoder reads the string rune by rune with
  \<^verbatim>\<open>utf8.DecodeRuneInString\<close> and writes \<^verbatim>\<open>\ufffd\<close> for every byte that does not begin a
  well-formed UTF-8 sequence, and its decoder reads that escape back as the three bytes
  \<open>EF BF BD\<close> of U+FFFD; every other character comes back as it was written. The
  well-formed sequences are those of \<^verbatim>\<open>unicode/utf8\<close>: one byte below \<open>80\<close>, or a leading
  byte from \<open>C2\<close> to \<open>F4\<close> with one to three continuation bytes, the second byte narrowed
  after \<open>E0\<close>, \<open>ED\<close>, \<open>F0\<close> and \<open>F4\<close>.
\<close>

definition utf8_cont :: "char \<Rightarrow> bool" where
  "utf8_cont b = (128 \<le> (of_char b :: nat) \<and> (of_char b :: nat) \<le> 191)"

definition utf8_seq2 :: "char \<Rightarrow> char \<Rightarrow> bool" where
  "utf8_seq2 a b = (194 \<le> (of_char a :: nat) \<and> (of_char a :: nat) \<le> 223 \<and> utf8_cont b)"

definition utf8_seq3 :: "char \<Rightarrow> char \<Rightarrow> char \<Rightarrow> bool" where
  "utf8_seq3 a b c =
     (((of_char a :: nat) = 224 \<and> 160 \<le> (of_char b :: nat) \<and> (of_char b :: nat) \<le> 191 \<or>
       (225 \<le> (of_char a :: nat) \<and> (of_char a :: nat) \<le> 236 \<or>
        (of_char a :: nat) = 238 \<or> (of_char a :: nat) = 239) \<and> utf8_cont b \<or>
       (of_char a :: nat) = 237 \<and> 128 \<le> (of_char b :: nat) \<and> (of_char b :: nat) \<le> 159) \<and>
      utf8_cont c)"

definition utf8_seq4 :: "char \<Rightarrow> char \<Rightarrow> char \<Rightarrow> char \<Rightarrow> bool" where
  "utf8_seq4 a b c d =
     (((of_char a :: nat) = 240 \<and> 144 \<le> (of_char b :: nat) \<and> (of_char b :: nat) \<le> 191 \<or>
       241 \<le> (of_char a :: nat) \<and> (of_char a :: nat) \<le> 243 \<and> utf8_cont b \<or>
       (of_char a :: nat) = 244 \<and> 128 \<le> (of_char b :: nat) \<and> (of_char b :: nat) \<le> 143) \<and>
      utf8_cont c \<and> utf8_cont d)"

definition utf8_replacement :: string where
  "utf8_replacement = [CHR 0xEF, CHR 0xBF, CHR 0xBD]"

fun utf8_coerce :: "string \<Rightarrow> string" where
  "utf8_coerce [] = []"
| "utf8_coerce (a # s) =
     (if (of_char a :: nat) < 128 then a # utf8_coerce s
      else (case s of
        [] \<Rightarrow> utf8_replacement
      | b # t \<Rightarrow>
          (if utf8_seq2 a b then a # b # utf8_coerce t
           else (case t of
             [] \<Rightarrow> utf8_replacement @ utf8_coerce s
           | c # u \<Rightarrow>
               (if utf8_seq3 a b c then a # b # c # utf8_coerce u
                else (case u of
                  [] \<Rightarrow> utf8_replacement @ utf8_coerce s
                | d # v \<Rightarrow>
                    (if utf8_seq4 a b c d then a # b # c # d # utf8_coerce v
                     else utf8_replacement @ utf8_coerce s)))))))"

text \<open>
  The \<^verbatim>\<open>PortData\<close> that \<^verbatim>\<open>json.Unmarshal\<close> returns from the bytes \<^verbatim>\<open>json.MarshalIndent\<close>
  wrote for \<open>pd\<close>: the numbers as written, the strings as above. A \<^verbatim>\<open>nil\<close> map is written
  as \<^verbatim>\<open>null\<close> and read as \<^verbatim>\<open>nil\<close>. Of a map every key is written through the string
  encoder, so the map read back has, under every key, the port of one of the names
  written as that key, and has a key only where a name was written as it.
\<close>

definition json_decodes_to :: "PortData \<Rightarrow> PortData \<Rightarrow> bool" where
  "json_decodes_to pd pd' =
     (Timestamp pd' = Timestamp pd \<and> Version pd' = utf8_coerce (Version pd) \<and>
      (case AppPorts pd of
         None \<Rightarrow> AppPorts pd' = None
       | Some m \<Rightarrow>
           (case AppPorts pd' of
              None \<Rightarrow> False
            | Some m' \<Rightarrow>
                (\<forall>k'. case m' k' of
                        None \<Rightarrow> (\<forall>k. utf8_coerce k = k' \<longrightarrow> m k = None)
                      | Some v \<Rightarrow> (\<exists>k. utf8_coerce k = k' \<and> m k = Some v)))))"

text \<open>
  Surroundings used in examples: a file system on which every operation succeeds, and a
  codec that writes the bytes \<open>b\<close> for every snapshot and reads \<open>b\<close>, and nothing else,
  back as \<open>d\<close>.
\<close>

definition working_fs :: "(string \<rightharpoonup> bytes) \<Rightarrow> filesys" where
  "working_fs m = \<lparr>files = m, mkdirall_ok = (\<lambda>p. True), readfile_ok = (\<lambda>p. True),
                    writefile_ok = (\<lambda>p. True)\<rparr>"

definition fixed_codec :: "PortData \<Rightarrow> bytes \<Rightarrow> 64 word \<Rightarrow> stdlib" where
  "fixed_codec d b now =
     \<lparr>json_MarshalIndent = (\<lambda>x. Some b),
      json_Unmarshal = (\<lambda>y. if y = b then Some d else None),
      time_Now_Unix = now\<rparr>"

text \<open>
  A second codec for the examples, which looks at what it encodes: it stores, for a fixed
  list of names, the ports below \<open>2\<^sup>1\<^sup>6\<close> that a map gives them (a byte 0 for a name
  without a port, a byte 1 and the two bytes of the port otherwise), and reads the names
  back as \<^verbatim>\<open>encoding/json\<close> reads keys back.
\<close>

fun encode_entries :: "string list \<Rightarrow> (string \<rightharpoonup> go_int) \<Rightarrow> bytes" where
  "encode_entries [] m = []"
| "encode_entries (k # ks) m =
     (case m k of None \<Rightarrow> [0] | Some v \<Rightarrow> [1, ucast (drop_bit 8 v), ucast v])
     @ encode_entries ks m"

fun decode_entries :: "string list \<Rightarrow> bytes \<Rightarrow> (string \<rightharpoonup> go_int) option" where
  "decode_entries [] bs = (if bs = [] then Some Map.empty else None)"
| "decode_entries (k # ks) [] = None"
| "decode_entries (k # ks) (b # bs) =
     (if b = 0 then decode_entries ks bs
      else (case bs of
              hi # lo # rest \<Rightarrow>
                map_option (\<lambda>m. m(utf8_coerce k \<mapsto> push_bit 8 (ucast hi) + ucast lo))
                  (decode_entries ks rest)
            | _ \<Rightarrow> None))"

definition keyed_codec :: "string list \<Rightarrow> 64 word \<Rightarrow> stdlib" where
  "keyed_codec names now =
     \<lparr>json_MarshalIndent =
        (\<lambda>pd. case AppPorts pd of
                None \<Rightarrow> Some [110]
              | Some m \<Rightarrow> Some (123 # encode_entries names m)),
      json_Unmarshal =
        (\<lambda>bs. case bs of
                [] \<Rightarrow> None
              | b # rest \<Rightarrow>
                  if b = 110 \<and> rest = []
                  then Some \<lparr>AppPorts = None, Timestamp = now, Version = ''1.0''\<rparr>
                  else if b = 123
                  then map_option
                         (\<lambda>m. \<lparr>AppPorts = Some m, Timestamp = now, Version = ''1.0''\<rparr>)
                         (decode_entries names rest)
                  else None),
      time_Now_Unix = now\<rparr>"

section \<open>Properties of the port manager\<close>

subsection \<open>\<^verbatim>\<open>SetPortRange\<close>\<close>

text \<open>
  Claim C8. \<^verbatim>\<open>SetPortRange(minPort, maxPort)\<close> returns the invalid-range error whenever
  \<open>minPort \<le> 0\<close>, \<open>maxPort \<le> 0\<close> or \<open>minPort > maxPort\<close>, and the manager, hence its
  active range, is then exactly what it was; for all other arguments it returns no error
  and the active range is the pair given, the reserved ports being untouched.
\<close>

theorem SetPortRange_spec:
  "(sint lo \<le> 0 \<or> sint hi \<le> 0 \<or> sint hi < sint lo \<longrightarrow>
      SetPortRange pm lo hi = (Some (InvalidRange lo hi), pm) \<and>
      GetPortRange (snd (SetPortRange pm lo hi)) = GetPortRange pm) \<and>
   (0 < sint lo \<and> 0 < sint hi \<and> sint lo \<le> sint hi \<longrightarrow>
      fst (SetPortRange pm lo hi) = None \<and>
      GetPortRange (snd (SetPortRange pm lo hi)) = (lo, hi) \<and>
      usedPorts (snd (SetPortRange pm lo hi)) = usedPorts pm)"
  by (auto simp: SetPortRange_def GetPortRange_def)

theorem SetPortRange_spec_witness:
  "SetPortRange (NewPortManager 10000 20000) 0 100
     = (Some (InvalidRange 0 100), NewPortManager 10000 20000) \<and>
   GetPortRange (snd (SetPortRange (NewPortManager 10000 20000) 0 100)) = (10000, 20000) \<and>
   fst (SetPortRange (NewPortManager 10000 20000) 3000 4000) = None \<and>
   GetPortRange (snd (SetPortRange (NewPortManager 10000 20000) 3000 4000)) = (3000, 4000)"
  using SetPortRange_spec [of 0 100 "NewPortManager 10000 20000"]
        SetPortRange_spec [of 3000 4000 "NewPortManager 10000 20000"]
  by (simp add: GetPortRange_def NewPortManager_def)

subsection \<open>\<^verbatim>\<open>IsPortAvailable\<close>\<close>

text \<open>
  Claim C3. For a port outside the range of the manager, and for a port marked in
  \<^verbatim>\<open>usedPorts\<close>, \<^verbatim>\<open>IsPortAvailable\<close> returns false and makes no call to the network
  stack. For any other port it returns true exactly when the TCP listen and the UDP bind
  (resolving the address, then \<^verbatim>\<open>net.ListenUDP\<close>) both succeed; the calls it makes are
  the TCP listen, closed at once when it succeeded, then the UDP bind, closed at once
  when it succeeded.
\<close>

theorem IsPortAvailable_spec:
  "(sint port < sint (minPort pm) \<or> sint (maxPort pm) < sint port \<longrightarrow>
      IsPortAvailable os pm port = (False, [])) \<and>
   (used pm port \<longrightarrow> IsPortAvailable os pm port = (False, [])) \<and>
   (sint (minPort pm) \<le> sint port \<and> sint port \<le> sint (maxPort pm) \<and> \<not> used pm port \<longrightarrow>
      fst (IsPortAvailable os pm port) =
        (tcp_listen_ok os port \<and> udp_resolve_ok os port \<and> udp_listen_ok os port) \<and>
      snd (IsPortAvailable os pm port) =
        TcpListen port #
        (if tcp_listen_ok os port
         then TcpClose port # UdpResolve port #
              (if udp_resolve_ok os port
               then UdpListen port # (if udp_listen_ok os port then [UdpClose port] else [])
               else [])
         else []))"
  by (simp add: IsPortAvailable_def checkPortBySocket_def)

theorem IsPortAvailable_spec_witness:
  "IsPortAvailable all_free (NewPortManager 10000 20000) 9999 = (False, []) \<and>
   IsPortAvailable all_free (markPortAsUsed (NewPortManager 10000 20000) 10007) 10007
     = (False, []) \<and>
   IsPortAvailable all_free (NewPortManager 10000 20000) 10007
     = (True, [TcpListen 10007, TcpClose 10007, UdpResolve 10007, UdpListen 10007,
               UdpClose 10007]) \<and>
   IsPortAvailable (only_free 10007) (NewPortManager 10000 20000) 10008
     = (False, [TcpListen 10008])"
  using IsPortAvailable_spec [of 9999 "NewPortManager 10000 20000" all_free]
        IsPortAvailable_spec [of 10007 "markPortAsUsed (NewPortManager 10000 20000) 10007" all_free]
        IsPortAvailable_spec [of 10007 "NewPortManager 10000 20000" all_free]
        IsPortAvailable_spec [of 10008 "NewPortManager 10000 20000" "only_free 10007"]
  by (simp add: NewPortManager_def markPortAsUsed_def used_def all_free_def only_free_def
      prod_eq_iff)

subsection \<open>\<^verbatim>\<open>GetRandomPort\<close>\<close>

lemma GetRandomPort_loop_unfold:
  assumes "0 < sint (maxPort pm - minPort pm + 1)" and "i < 100"
  shows "GetRandomPort_loop w pm i =
           (if passes w pm i
            then Inr ((candidate w pm i, None), markPortAsUsed pm (candidate w pm i), Suc i)
            else GetRandomPort_loop w pm (Suc i))"
  using assms
  by (subst GetRandomPort_loop.simps) (simp add: Intn_def passes_def candidate_def Let_def)


lemma GetRandomPort_loop_exhausted:
  assumes "0 < sint (maxPort pm - minPort pm + 1)"
    and "i \<le> 100" and "\<And>j. i \<le> j \<Longrightarrow> j < 100 \<Longrightarrow> \<not> passes w pm j"
  shows "GetRandomPort_loop w pm i = Inr ((0, Some NoAvailablePort), pm, 100)"
  using assms(2,3)
proof (induction "100 - i" arbitrary: i)
  case 0
  then have "i = 100" by simp
  then show ?case by (subst GetRandomPort_loop.simps) simp
next
  case (Suc d)
  then have lt: "i < 100" by simp
  have "GetRandomPort_loop w pm (Suc i) = Inr ((0, Some NoAvailablePort), pm, 100)"
    using Suc.hyps(2) lt Suc.prems(2) by (intro Suc.hyps(1)) auto
  moreover have "\<not> passes w pm i" using Suc.prems(2) lt by simp
  ultimately show ?case
    using GetRandomPort_loop_unfold [OF assms(1) lt, of w] by simp
qed

lemma GetRandomPort_loop_found:
  assumes "0 < sint (maxPort pm - minPort pm + 1)"
    and "i \<le> k" and "k < 100" and "passes w pm k"
    and "\<And>j. i \<le> j \<Longrightarrow> j < k \<Longrightarrow> \<not> passes w pm j"
  shows "GetRandomPort_loop w pm i =
           Inr ((candidate w pm k, None), markPortAsUsed pm (candidate w pm k), Suc k)"
  using assms(2,5)
proof (induction "k - i" arbitrary: i)
  case 0
  then have "i = k" by simp
  then show ?case
    using GetRandomPort_loop_unfold [OF assms(1) assms(3), of w] assms(4) by simp
next
  case (Suc d)
  then have lt: "i < k" by simp
  then have lt': "i < 100" using assms(3) by simp
  have "GetRandomPort_loop w pm (Suc i) =
           Inr ((candidate w pm k, None), markPortAsUsed pm (candidate w pm k), Suc k)"
    using Suc.hyps(2) lt Suc.prems(2) by (intro Suc.hyps(1)) auto
  moreover have "\<not> passes w pm i" using Suc.prems(2) lt by simp
  ultimately show ?case
    using GetRandomPort_loop_unfold [OF assms(1) lt', of w] by simp
qed

lemma passes_in_range:
  assumes "passes w pm i"
  shows "sint (minPort pm) \<le> sint (candidate w pm i) \<and>
         sint (candidate w pm i) \<le> sint (maxPort pm) \<and> \<not> used pm (candidate w pm i)"
  using assms by (auto simp: passes_def IsPortAvailable_def split: if_splits)

lemma used_IsPortAvailable: "used pm p \<Longrightarrow> IsPortAvailable os pm p = (False, [])"
  by (simp add: IsPortAvailable_def)

lemma used_markPortAsUsed: "used (markPortAsUsed pm q) p = (p = q \<or> used pm p)"
  by (simp add: used_def markPortAsUsed_def)

lemma used_ReleasePort: "used (ReleasePort pm q) p = (p \<noteq> q \<and> used pm p)"
  by (simp add: used_def ReleasePort_def)

lemma used_SetPortRange: "used (snd (SetPortRange pm lo hi)) p = used pm p"
  by (simp add: used_def SetPortRange_def)

lemma GetRandomPort_loop_used:
  "GetRandomPort_loop w pm i = Inr (r, pm', n) \<Longrightarrow> used pm p \<Longrightarrow> used pm' p"
proof (induction w pm i rule: GetRandomPort_loop.induct)
  case (1 w pm i)
  then show ?case
    by (subst (asm) (2) GetRandomPort_loop.simps)
       (auto simp: Let_def used_markPortAsUsed split: if_splits sum.splits)
qed

lemma GetRandomPorts_loop_used:
  "GetRandomPorts_loop w count pm ports i = Inr (ports', pm', n) \<Longrightarrow> used pm p \<Longrightarrow> used pm' p"
proof (induction w count pm ports i rule: GetRandomPorts_loop.induct)
  case (1 w count pm ports i)
  then show ?case
    by (subst (asm) (4) GetRandomPorts_loop.simps)
       (auto simp: Let_def used_markPortAsUsed split: if_splits sum.splits)
qed


lemma GetRandomPort_used:
  "GetRandomPort w pm = Inr (r, pm', n) \<Longrightarrow> used pm p \<Longrightarrow> used pm' p"
  unfolding GetRandomPort_def by (rule GetRandomPort_loop_used)

lemma GetRandomPorts_used:
  assumes "GetRandomPorts w pm count = Inr (r, pm', n)" and "used pm p"
  shows "used pm' p"
proof (cases "sint count \<le> 0")
  case True
  with assms show ?thesis by (simp add: GetRandomPorts_def)
next
  case False
  with assms(1) obtain ports where "GetRandomPorts_loop w count pm [] 0 = Inr (ports, pm', n)"
    by (auto simp: GetRandomPorts_def split: sum.splits if_splits)
  then show ?thesis using assms(2) by (rule GetRandomPorts_loop_used)
qed

lemma pm_call_step_used:
  assumes "pm_call_step c pm = Inr pm'" and "c \<noteq> CallReleasePort p" and "used pm p"
  shows "used pm' p"
proof (cases c)
  case (CallIsPortAvailable os port)
  with assms show ?thesis by simp
next
  case (CallGetRandomPort w)
  with assms(1) obtain r n where "GetRandomPort w pm = Inr (r, pm', n)"
    by (auto split: sum.splits)
  then show ?thesis using assms(3) by (rule GetRandomPort_used)
next
  case (CallGetRandomPorts w count)
  with assms(1) obtain r n where "GetRandomPorts w pm count = Inr (r, pm', n)"
    by (auto split: sum.splits)
  then show ?thesis using assms(3) by (rule GetRandomPorts_used)
next
  case (CallReleasePort q)
  with assms show ?thesis by (auto simp: used_ReleasePort)
next
  case (CallSetPortRange lo hi)
  with assms show ?thesis by (auto simp: used_SetPortRange)
qed

lemma pm_calls_used:
  "pm_calls cs pm = Inr pm' \<Longrightarrow> CallReleasePort p \<notin> set cs \<Longrightarrow> used pm p \<Longrightarrow> used pm' p"
proof (induction cs arbitrary: pm)
  case Nil
  then show ?case by simp
next
  case (Cons c cs)
  from Cons.prems(1) obtain pm1 where step: "pm_call_step c pm = Inr pm1"
    and rest: "pm_calls cs pm1 = Inr pm'"
    by (auto split: sum.splits)
  from Cons.prems(2) have "c \<noteq> CallReleasePort p" and notin: "CallReleasePort p \<notin> set cs"
    by auto
  with step Cons.prems(3) have "used pm1 p"
    by (auto dest: pm_call_step_used)
  then show ?case
    using Cons.IH [OF rest notin] by simp
qed

text \<open>
  Claim C1. On a manager whose range admits a draw (\<open>maxPort - minPort + 1\<close> is positive
  in 64 bits, as it is whenever \<open>1 \<le> minPort \<le> maxPort\<close>), \<^verbatim>\<open>GetRandomPort\<close> returns
  after at most 100 draws. If some candidate among the 100 passes \<^verbatim>\<open>IsPortAvailable\<close>,
  it returns the first such candidate \<open>p\<close> and no error: \<open>p\<close> lies in the range, was
  not marked and passed the probe when it was chosen, and the manager returned has it
  marked. From then on \<^verbatim>\<open>IsPortAvailable(p)\<close> is false without any probe, whatever the
  network stack, and stays so after any sequence of calls on the manager that does not
  contain \<^verbatim>\<open>ReleasePort(p)\<close>; right after \<^verbatim>\<open>ReleasePort(p)\<close> the answer is again that of
  the probe. If no candidate passes, it returns port 0 with the no-available-port error
  after exactly 100 draws, and the manager is unchanged.
\<close>

theorem GetRandomPort_spec:
  assumes range: "0 < sint (maxPort pm - minPort pm + 1)"
  shows "\<exists>p err pm' n.
           GetRandomPort w pm = Inr ((p, err), pm', n) \<and> n \<le> 100 \<and>
           (if \<exists>i<100. passes w pm i
            then err = None \<and> 0 < n \<and> p = candidate w pm (n - 1) \<and>
                 passes w pm (n - 1) \<and> (\<forall>i<n - 1. \<not> passes w pm i) \<and>
                 sint (minPort pm) \<le> sint p \<and> sint p \<le> sint (maxPort pm) \<and>
                 \<not> used pm p \<and> pm' = markPortAsUsed pm p \<and>
                 (\<forall>os. IsPortAvailable os pm' p = (False, [])) \<and>
                 (\<forall>cs pm'' os. CallReleasePort p \<notin> set cs \<longrightarrow> pm_calls cs pm' = Inr pm'' \<longrightarrow>
                    IsPortAvailable os pm'' p = (False, [])) \<and>
                 (\<forall>os. IsPortAvailable os (ReleasePort pm' p) p = checkPortBySocket os p)
            else err = Some NoAvailablePort \<and> p = 0 \<and> pm' = pm \<and> n = 100)"
proof (cases "\<exists>i<100. passes w pm i")
  case False
  then have "GetRandomPort w pm = Inr ((0, Some NoAvailablePort), pm, 100)"
    unfolding GetRandomPort_def
    by (intro GetRandomPort_loop_exhausted [OF range]) auto
  with False show ?thesis by simp
next
  case True
  define k where "k = (LEAST i. i < 100 \<and> passes w pm i)"
  from True have "k < 100 \<and> passes w pm k"
    unfolding k_def by (rule LeastI_ex)
  then have k: "k < 100" and pk: "passes w pm k" by auto
  have least: "\<not> passes w pm j" if "j < k" for j
    using not_less_Least [of j "\<lambda>i. i < 100 \<and> passes w pm i"] that k
    unfolding k_def by auto
  let ?p = "candidate w pm k"
  let ?pm' = "markPortAsUsed pm ?p"
  have res: "GetRandomPort w pm = Inr ((?p, None), ?pm', Suc k)"
    unfolding GetRandomPort_def
    by (rule GetRandomPort_loop_found [OF range _ k pk]) (auto dest: least)
  have inr: "sint (minPort pm) \<le> sint ?p" "sint ?p \<le> sint (maxPort pm)" "\<not> used pm ?p"
    using passes_in_range [OF pk] by auto
  have used': "used ?pm' ?p"
    by (simp add: used_markPortAsUsed)
  have later: "IsPortAvailable os pm'' ?p = (False, [])"
    if "CallReleasePort ?p \<notin> set cs" "pm_calls cs ?pm' = Inr pm''" for cs pm'' os
    using pm_calls_used [OF that(2) that(1) used'] by (rule used_IsPortAvailable)
  have released: "IsPortAvailable os (ReleasePort ?pm' ?p) ?p = checkPortBySocket os ?p" for os
    using inr by (simp add: IsPortAvailable_def used_def ReleasePort_def markPortAsUsed_def)
  have avail: "IsPortAvailable os ?pm' ?p = (False, [])" for os
    using used' by (rule used_IsPortAvailable)
  show ?thesis
    unfolding res using True k pk least inr avail later released
    by (simp del: ex_simps)
qed

text \<open>A scenario for the examples: the range is 10000 to 10010, only port 10007 can be
  bound, and the draws run through the range in order.\<close>

lemma counting_apply: "counting os i = (i, os)"
  by (simp add: counting_def)

lemma steady_apply: "steady raw os i = (raw, os)"
  by (simp add: steady_def)

lemma NewPortManager_sel [simp]:
  "minPort (NewPortManager lo hi) = lo" "maxPort (NewPortManager lo hi) = hi"
  "used (NewPortManager lo hi) p = False"
  by (simp_all add: NewPortManager_def used_def)

lemma markPortAsUsed_sel [simp]:
  "minPort (markPortAsUsed pm q) = minPort pm" "maxPort (markPortAsUsed pm q) = maxPort pm"
  by (simp_all add: markPortAsUsed_def)

lemma passes_only_free:
  assumes "passes w pm i" and "snd (w i) = only_free q"
  shows "candidate w pm i = q \<and> \<not> used pm q"
  using assms
  by (auto simp: passes_def IsPortAvailable_def checkPortBySocket_def only_free_def
      split: if_splits)

lemma only_free_passes:
  assumes "snd (w i) = only_free q" and "candidate w pm i = q" and "\<not> used pm q"
    and "sint (minPort pm) \<le> sint q" and "sint q \<le> sint (maxPort pm)"
  shows "passes w pm i"
  using assms
  by (simp add: passes_def IsPortAvailable_def checkPortBySocket_def only_free_def)

lemma scenario_candidate:
  "candidate (counting os) (NewPortManager 10000 10010) i = word_of_nat (i mod 11) + 10000"
  "candidate (counting os) (markPortAsUsed (NewPortManager 10000 10010) q) i
     = word_of_nat (i mod 11) + 10000"
  by (simp_all add: candidate_def counting_apply)

lemma scenario_passes_7:
  "passes (counting (only_free 10007)) (NewPortManager 10000 10010) 7"
  by (rule only_free_passes [where q = 10007])
     (simp_all add: scenario_candidate counting_apply)

lemma scenario_fails_before_7:
  assumes "i < 7"
  shows "\<not> passes (counting (only_free 10007)) (NewPortManager 10000 10010) i"
proof
  assume "passes (counting (only_free 10007)) (NewPortManager 10000 10010) i"
  then have c: "candidate (counting (only_free 10007)) (NewPortManager 10000 10010) i = 10007"
    using passes_only_free [of _ _ i 10007] by (simp add: counting_apply)
  from assms have "i \<in> {0, 1, 2, 3, 4, 5, 6}" by auto
  with c show False
    unfolding scenario_candidate by auto
qed

lemma scenario_fails_after:
  "\<not> passes (counting (only_free 10007)) (markPortAsUsed (NewPortManager 10000 10010) 10007) i"
  using passes_only_free [of "counting (only_free 10007)"
      "markPortAsUsed (NewPortManager 10000 10010) 10007" i 10007]
  by (auto simp: counting_apply used_markPortAsUsed)

theorem GetRandomPort_spec_witness:
  "GetRandomPort (counting (only_free 10007)) (NewPortManager 10000 10010)
     = Inr ((10007, None), markPortAsUsed (NewPortManager 10000 10010) 10007, 8) \<and>
   GetRandomPort (counting (only_free 10007))
       (markPortAsUsed (NewPortManager 10000 10010) 10007)
     = Inr ((0, Some NoAvailablePort), markPortAsUsed (NewPortManager 10000 10010) 10007, 100)"
proof -
  let ?w = "counting (only_free 10007)"
  let ?pm = "NewPortManager 10000 10010"
  let ?pm1 = "markPortAsUsed ?pm 10007"
  have range: "0 < sint (maxPort ?pm - minPort ?pm + 1)"
    by simp
  have range1: "0 < sint (maxPort ?pm1 - minPort ?pm1 + 1)"
    by simp
  from GetRandomPort_spec [OF range, of ?w] scenario_passes_7
  obtain p pm' n where r: "GetRandomPort ?w ?pm = Inr ((p, None), pm', n)"
    and n: "0 < n" "passes ?w ?pm (n - 1)" "\<forall>i<n - 1. \<not> passes ?w ?pm i"
    and p: "p = candidate ?w ?pm (n - 1)" and pm': "pm' = markPortAsUsed ?pm p"
    by (auto split: if_splits)
  have "n - 1 = 7"
  proof (rule ccontr)
    assume "n - 1 \<noteq> 7"
    then consider "n - 1 < 7" | "7 < n - 1" by linarith
    then show False
      using scenario_fails_before_7 n(2,3) scenario_passes_7 by cases auto
  qed
  with n(1) have n8: "n = 8" by simp
  with p have p': "p = 10007" by (simp add: scenario_candidate)
  have first: "GetRandomPort ?w ?pm = Inr ((10007, None), ?pm1, 8)"
    using r n8 p' pm' by simp
  have second: "GetRandomPort ?w ?pm1 = Inr ((0, Some NoAvailablePort), ?pm1, 100)"
    using GetRandomPort_spec [OF range1, of ?w] scenario_fails_after by auto
  from first second show ?thesis by simp
qed

subsection \<open>\<^verbatim>\<open>GetRandomPorts\<close>\<close>







lemma foldl_markPortAsUsed_sel [simp]:
  "minPort (foldl markPortAsUsed pm ps) = minPort pm"
  "maxPort (foldl markPortAsUsed pm ps) = maxPort pm"
  by (induction ps arbitrary: pm) simp_all


lemma candidate_foldl_markPortAsUsed [simp]:
  "candidate w (foldl markPortAsUsed pm ps) i = candidate w pm i"
  by (simp add: candidate_def)



lemma length_picks_mono: "i \<le> k \<Longrightarrow> length (picks w pm i) \<le> length (picks w pm k)"
  by (induction k) (auto simp: le_Suc_eq)










text \<open>
  The claim as first stated fails for a count that \<^verbatim>\<open>make\<close> refuses: with \<open>count = 2\<^sup>4\<^sup>6\<close>
  no port is found, and the call does not return the list found so far with an error but
  panics.
\<close>

theorem GetRandomPorts_counterexample:
  "0 < sint (70368744177664 :: go_int) \<and>
   GetRandomPorts (counting all_free) (NewPortManager 10000 10010) 70368744177664
     = Inl MakesliceCapOutOfRange"
  by (simp add: GetRandomPorts_def maxAlloc_def)

subsection \<open>Panics of the allocation functions\<close>






subsection \<open>Concurrent calls of \<^verbatim>\<open>GetRandomPort\<close>\<close>

text \<open>
  One goroutine running alone through the four actions computes what \<^verbatim>\<open>GetRandomPort\<close>
  computes as a whole.
\<close>

lemma run_alone_done [simp]:
  "run_alone w pm (Returned port err) = (pm, Returned port err)"
  "run_alone w pm (Panicked p) = (pm, Panicked p)"
  by (simp_all add: run_alone.simps)

lemma run_alone_step:
  assumes "alloc_iter pc = Some i" and "i \<le> 100"
  shows "run_alone w pm pc = run_alone w (fst (alloc_step (w i) pm pc)) (snd (alloc_step (w i) pm pc))"
  using assms by (subst run_alone.simps) (simp add: split_beta)

lemma run_alone_attempt:
  assumes "i < 100"
  shows "run_alone w pm (AtLoop i) =
           (case Intn (fst (w i)) (maxPort pm - minPort pm + 1) of
              Inl p \<Rightarrow> (pm, Panicked p)
            | Inr r \<Rightarrow>
                if fst (IsPortAvailable (snd (w i)) pm (r + minPort pm))
                then (markPortAsUsed pm (r + minPort pm), Returned (r + minPort pm) None)
                else run_alone w pm (AtLoop (Suc i)))"
proof (cases "Intn (fst (w i)) (maxPort pm - minPort pm + 1)")
  case (Inl p)
  then show ?thesis
    using assms by (simp add: run_alone_step [of "AtLoop i" i])
next
  case (Inr r)
  let ?port = "r + minPort pm"
  have le: "i \<le> 100" using assms by simp
  show ?thesis
  proof (cases "sint ?port < sint (minPort pm) \<or> sint (maxPort pm) < sint ?port")
    case True
    then show ?thesis
      using assms Inr
      by (simp add: run_alone_step [of "AtLoop i" i] IsPortAvailable_def Let_def)
  next
    case inrange: False
    then have s1: "run_alone w pm (AtLoop i) = run_alone w pm (AtCheck i ?port)"
      using assms Inr by (simp add: run_alone_step [of "AtLoop i" i] Let_def)
    show ?thesis
    proof (cases "used pm ?port")
      case True
      then show ?thesis
        using s1 le Inr inrange
        by (simp add: run_alone_step [of "AtCheck i ?port" i] IsPortAvailable_def)
    next
      case unused: False
      then have s2: "run_alone w pm (AtCheck i ?port) = run_alone w pm (AtProbe i ?port)"
        using le by (simp add: run_alone_step [of "AtCheck i ?port" i])
      show ?thesis
      proof (cases "fst (checkPortBySocket (snd (w i)) ?port)")
        case True
        then have "run_alone w pm (AtProbe i ?port) = run_alone w pm (AtMark i ?port)"
          using le by (simp add: run_alone_step [of "AtProbe i ?port" i])
        also have "\<dots> = (markPortAsUsed pm ?port, Returned ?port None)"
          using le by (simp add: run_alone_step [of "AtMark i ?port" i])
        finally show ?thesis
          using s1 s2 Inr inrange unused True by (simp add: IsPortAvailable_def)
      next
        case False
        then have "run_alone w pm (AtProbe i ?port) = run_alone w pm (AtLoop (Suc i))"
          using le by (simp add: run_alone_step [of "AtProbe i ?port" i])
        then show ?thesis
          using s1 s2 Inr inrange unused False by (simp add: IsPortAvailable_def)
      qed
    qed
  qed
qed

lemma run_alone_GetRandomPort_loop:
  assumes "i \<le> 100"
  shows "run_alone w pm (AtLoop i) =
           (case GetRandomPort_loop w pm i of
              Inl p \<Rightarrow> (pm, Panicked p)
            | Inr ((port, err), pm', n) \<Rightarrow> (pm', Returned port err))"
  using assms
proof (induction "100 - i" arbitrary: i)
  case 0
  then have "i = 100" by simp
  then show ?case
    by (simp add: run_alone_step [of "AtLoop 100" 100] GetRandomPort_loop.simps [of w pm 100])
next
  case (Suc d)
  then have lt: "i < 100" by simp
  have ih: "run_alone w pm (AtLoop (Suc i)) =
           (case GetRandomPort_loop w pm (Suc i) of
              Inl p \<Rightarrow> (pm, Panicked p)
            | Inr ((port, err), pm', n) \<Rightarrow> (pm', Returned port err))"
    using Suc.hyps(2) lt by (intro Suc.hyps(1)) auto
  show ?case
    using lt ih
    by (subst GetRandomPort_loop.simps)
       (simp add: run_alone_attempt Let_def split: sum.splits)
qed

text \<open>
  Claim C2 asks that two concurrent calls of \<^verbatim>\<open>GetRandomPort\<close> never return the same
  port, the test of \<^verbatim>\<open>usedPorts\<close> and the marking being done under one acquisition of
  the lock. In the code they are done under two: the read lock is released before the
  probe and the write lock taken after it. The schedule below runs two goroutines on
  the manager for 10000 to 10010 with every port free; both draw 10007, both read it as
  unmarked, both probe it (one after the other, each closing its sockets), both mark it,
  and both return 10007 without error.
\<close>

theorem concurrent_GetRandomPort_same_port:
  "run_schedule
     [(0, (7, all_free)), (1, (7, all_free)), (0, (7, all_free)), (1, (7, all_free)),
      (0, (7, all_free)), (1, (7, all_free)), (0, (7, all_free)), (1, (7, all_free))]
     (NewPortManager 10000 10010, [AtLoop 0, AtLoop 0])
   = (markPortAsUsed (NewPortManager 10000 10010) 10007,
      [Returned 10007 None, Returned 10007 None])"
  by (simp add: Intn_def Let_def used_def checkPortBySocket_def all_free_def
      NewPortManager_def markPortAsUsed_def)


section \<open>Properties of the application-port storage\<close>

lemma saveToFile_ok:
  assumes "json_MarshalIndent lib (snapshot lib s) = Some data"
    and "mkdirall_ok fs (dataFile s)" and "writefile_ok fs (dataFile s)"
  shows "saveToFile lib s fs = (None, fs\<lparr>files := (files fs)(dataFile s \<mapsto> data)\<rparr>)"
  using assms by (simp add: saveToFile_def)

lemma saveToFile_None:
  assumes "saveToFile lib s fs = (None, fs')"
  shows "\<exists>data. json_MarshalIndent lib (snapshot lib s) = Some data \<and>
           fs' = fs\<lparr>files := (files fs)(dataFile s \<mapsto> data)\<rparr>"
  using assms by (auto simp: saveToFile_def split: option.splits if_splits)

lemma LoadFromFile_parsed:
  assumes "mkdirall_ok fs (dataFile s)" and "readfile_ok fs (dataFile s)"
    and "files fs (dataFile s) = Some data" and "data \<noteq> []"
    and "json_Unmarshal lib data = Some pd"
  shows "LoadFromFile lib s fs =
           (None, s\<lparr>appPorts := (case AppPorts pd of None \<Rightarrow> Map.empty | Some m \<Rightarrow> m)\<rparr>, fs)"
  using assms by (simp add: LoadFromFile_def)





text \<open>
  Claim C6. \<^verbatim>\<open>DeleteAppPort\<close> returns the empty-name error for the empty name and the
  not-found error for a name without a mapping, changing nothing. For a mapped name it
  removes the mapping and returns what \<^verbatim>\<open>saveToFile\<close> returns on the storage without
  the mapping, run inside the call: \<^verbatim>\<open>GetAppPort\<close> then gives not-found, and when the
  call returns no error the file holds the encoding of a snapshot whose map lacks the
  name. With a directory that can be made, a writable file and a codec that encodes the
  snapshot, the call returns no error; a new storage that then loads those bytes from
  the file answers not-found for the name.
\<close>

theorem DeleteAppPort_spec:
  "DeleteAppPort lib s [] fs = (Some EmptyName, s, fs) \<and>
   (appName \<noteq> [] \<and> appPorts s appName = None \<longrightarrow>
      DeleteAppPort lib s appName fs = (Some (NotFound appName), s, fs)) \<and>
   (appName \<noteq> [] \<and> appPorts s appName = Some port \<longrightarrow>
      DeleteAppPort lib s appName fs =
        (fst (saveToFile lib (s\<lparr>appPorts := (appPorts s)(appName := None)\<rparr>) fs),
         s\<lparr>appPorts := (appPorts s)(appName := None)\<rparr>,
         snd (saveToFile lib (s\<lparr>appPorts := (appPorts s)(appName := None)\<rparr>) fs)) \<and>
      GetAppPort (fst (snd (DeleteAppPort lib s appName fs))) appName
        = (0, Some (NotFound appName)) \<and>
      (fst (DeleteAppPort lib s appName fs) = None \<longrightarrow>
         (\<exists>data. json_MarshalIndent lib (snapshot lib (fst (snd (DeleteAppPort lib s appName fs))))
                   = Some data \<and>
                 files (snd (snd (DeleteAppPort lib s appName fs))) (dataFile s) = Some data) \<and>
         AppPorts (snapshot lib (fst (snd (DeleteAppPort lib s appName fs))))
           = Some ((appPorts s)(appName := None))) \<and>
      (mkdirall_ok fs (dataFile s) \<and> writefile_ok fs (dataFile s) \<and>
       json_MarshalIndent lib (snapshot lib (s\<lparr>appPorts := (appPorts s)(appName := None)\<rparr>))
         = Some data \<longrightarrow>
         DeleteAppPort lib s appName fs =
           (None, s\<lparr>appPorts := (appPorts s)(appName := None)\<rparr>,
            fs\<lparr>files := (files fs)(dataFile s \<mapsto> data)\<rparr>) \<and>
         (data \<noteq> [] \<and> json_Unmarshal lib' data = Some pd \<and>
          AppPorts pd = Some ((appPorts s)(appName := None)) \<and>
          files fs' (dataFile s) = Some data \<and>
          mkdirall_ok fs' (dataFile s) \<and> readfile_ok fs' (dataFile s) \<longrightarrow>
            fst (LoadFromFile lib' (NewAppPortStorage (dataFile s) interval) fs') = None \<and>
            GetAppPort (fst (snd (LoadFromFile lib' (NewAppPortStorage (dataFile s) interval) fs')))
              appName = (0, Some (NotFound appName)))))"
proof (intro conjI impI)
  show "DeleteAppPort lib s [] fs = (Some EmptyName, s, fs)"
    by (simp add: DeleteAppPort_def)
next
  assume "appName \<noteq> [] \<and> appPorts s appName = None"
  then show "DeleteAppPort lib s appName fs = (Some (NotFound appName), s, fs)"
    by (simp add: DeleteAppPort_def)
next
  let ?s' = "s\<lparr>appPorts := (appPorts s)(appName := None)\<rparr>"
  assume a: "appName \<noteq> [] \<and> appPorts s appName = Some port"
  then show del: "DeleteAppPort lib s appName fs =
        (fst (saveToFile lib ?s' fs), ?s', snd (saveToFile lib ?s' fs))"
    by (simp add: DeleteAppPort_def Let_def split: prod.splits)
  show "GetAppPort (fst (snd (DeleteAppPort lib s appName fs))) appName
        = (0, Some (NotFound appName))"
    using a unfolding del by (simp add: GetAppPort_def)
  {
    assume "fst (DeleteAppPort lib s appName fs) = None"
    then have "saveToFile lib ?s' fs = (None, snd (saveToFile lib ?s' fs))"
      unfolding del by (simp add: prod_eq_iff)
    from saveToFile_None [OF this]
    show "\<exists>data. json_MarshalIndent lib (snapshot lib (fst (snd (DeleteAppPort lib s appName fs))))
                   = Some data \<and>
                 files (snd (snd (DeleteAppPort lib s appName fs))) (dataFile s) = Some data"
      unfolding del by auto
    show "AppPorts (snapshot lib (fst (snd (DeleteAppPort lib s appName fs))))
           = Some ((appPorts s)(appName := None))"
      unfolding del by (simp add: snapshot_def)
  }
  {
    assume ok: "mkdirall_ok fs (dataFile s) \<and> writefile_ok fs (dataFile s) \<and>
       json_MarshalIndent lib (snapshot lib ?s') = Some data"
    then show "DeleteAppPort lib s appName fs =
           (None, ?s', fs\<lparr>files := (files fs)(dataFile s \<mapsto> data)\<rparr>)"
      unfolding del using saveToFile_ok [of lib ?s' data fs] by simp
    let ?new = "NewAppPortStorage (dataFile s) interval"
    assume rec: "data \<noteq> [] \<and> json_Unmarshal lib' data = Some pd \<and>
          AppPorts pd = Some ((appPorts s)(appName := None)) \<and>
          files fs' (dataFile s) = Some data \<and>
          mkdirall_ok fs' (dataFile s) \<and> readfile_ok fs' (dataFile s)"
    have load: "LoadFromFile lib' ?new fs' =
        (None, ?new\<lparr>appPorts := (case AppPorts pd of None \<Rightarrow> Map.empty | Some m \<Rightarrow> m)\<rparr>, fs')"
    proof (rule LoadFromFile_parsed)
      show "mkdirall_ok fs' (dataFile ?new)" "readfile_ok fs' (dataFile ?new)"
        "files fs' (dataFile ?new) = Some data"
        using rec by (simp_all add: NewAppPortStorage_def)
      show "data \<noteq> []" "json_Unmarshal lib' data = Some pd"
        using rec by simp_all
    qed
    show "fst (LoadFromFile lib' ?new fs') = None"
      unfolding load by simp
    show "GetAppPort (fst (snd (LoadFromFile lib' ?new fs'))) appName
            = (0, Some (NotFound appName))"
      unfolding load using rec a by (simp add: GetAppPort_def)
  }
qed

theorem DeleteAppPort_spec_witness:
  "DeleteAppPort (fixed_codec \<lparr>AppPorts = Some Map.empty, Timestamp = 0, Version = ''1.0''\<rparr>
        [123, 125] 1700000000)
     ((NewAppPortStorage ''data/ports.json'' 60)\<lparr>appPorts := [''svc'' \<mapsto> 12345]\<rparr>) ''svc''
     (working_fs [''data/ports.json'' \<mapsto> [91, 93]])
   = (None, (NewAppPortStorage ''data/ports.json'' 60)\<lparr>appPorts := Map.empty\<rparr>,
      working_fs [''data/ports.json'' \<mapsto> [123, 125]]) \<and>
   DeleteAppPort (fixed_codec \<lparr>AppPorts = Some Map.empty, Timestamp = 0, Version = ''1.0''\<rparr>
        [123, 125] 1700000000)
     ((NewAppPortStorage ''data/ports.json'' 60)\<lparr>appPorts := [''svc'' \<mapsto> 12345]\<rparr>) ''web''
     (working_fs [''data/ports.json'' \<mapsto> [91, 93]])
   = (Some (NotFound ''web''),
      (NewAppPortStorage ''data/ports.json'' 60)\<lparr>appPorts := [''svc'' \<mapsto> 12345]\<rparr>,
      working_fs [''data/ports.json'' \<mapsto> [91, 93]]) \<and>
   GetAppPort
     (fst (snd (LoadFromFile
        (fixed_codec \<lparr>AppPorts = Some Map.empty, Timestamp = 0, Version = ''1.0''\<rparr>
           [123, 125] 1700000000)
        (NewAppPortStorage ''data/ports.json'' 30)
        (working_fs [''data/ports.json'' \<mapsto> [123, 125]])))) ''svc''
     = (0, Some (NotFound ''svc''))"
proof -
  let ?pd = "\<lparr>AppPorts = Some Map.empty, Timestamp = 0, Version = ''1.0''\<rparr>"
  let ?lib = "fixed_codec ?pd [123, 125] 1700000000"
  let ?s = "(NewAppPortStorage ''data/ports.json'' 60)\<lparr>appPorts := [''svc'' \<mapsto> 12345]\<rparr>"
  let ?fs = "working_fs [''data/ports.json'' \<mapsto> [91, 93]]"
  let ?fs' = "working_fs [''data/ports.json'' \<mapsto> [123, 125]]"
  have s: "dataFile ?s = ''data/ports.json''" "appPorts ?s = [''svc'' \<mapsto> 12345]"
    by (simp_all add: NewAppPortStorage_def)
  have upd: "?s\<lparr>appPorts := (appPorts ?s)(''svc'' := None)\<rparr>
      = (NewAppPortStorage ''data/ports.json'' 60)\<lparr>appPorts := Map.empty\<rparr>"
    by (simp add: NewAppPortStorage_def)
  have fs: "?fs\<lparr>files := (files ?fs)(''data/ports.json'' \<mapsto> [123, 125])\<rparr> = ?fs'"
    by (simp add: working_fs_def)
  have named: "''svc'' \<noteq> [] \<and> appPorts ?s ''svc'' = Some 12345"
    by (simp add: s)
  have io: "mkdirall_ok ?fs (dataFile ?s) \<and> writefile_ok ?fs (dataFile ?s) \<and>
      json_MarshalIndent ?lib (snapshot ?lib (?s\<lparr>appPorts := (appPorts ?s)(''svc'' := None)\<rparr>))
        = Some [123, 125]"
    by (simp add: working_fs_def fixed_codec_def)
  have rec: "[123, 125] \<noteq> ([] :: bytes) \<and> json_Unmarshal ?lib [123, 125] = Some ?pd \<and>
      AppPorts ?pd = Some ((appPorts ?s)(''svc'' := None)) \<and>
      files ?fs' (dataFile ?s) = Some [123, 125] \<and>
      mkdirall_ok ?fs' (dataFile ?s) \<and> readfile_ok ?fs' (dataFile ?s)"
    by (simp add: s working_fs_def fixed_codec_def)
  have unnamed: "''web'' \<noteq> [] \<and> appPorts ?s ''web'' = None"
    by (simp add: s)
  note thm1 = DeleteAppPort_spec [of ?lib ?s ?fs "''svc''" 12345 "[123, 125]" ?lib ?pd ?fs' 30]
  note thm2 = DeleteAppPort_spec [of ?lib ?s ?fs "''web''"]
  from thm1 named io
  have "DeleteAppPort ?lib ?s ''svc'' ?fs
      = (None, ?s\<lparr>appPorts := (appPorts ?s)(''svc'' := None)\<rparr>,
         ?fs\<lparr>files := (files ?fs)(dataFile ?s \<mapsto> [123, 125])\<rparr>)"
    by blast
  then have a: "DeleteAppPort ?lib ?s ''svc'' ?fs
      = (None, (NewAppPortStorage ''data/ports.json'' 60)\<lparr>appPorts := Map.empty\<rparr>, ?fs')"
    unfolding upd by (simp only: s(1) fs)
  from thm2 unnamed
  have b: "DeleteAppPort ?lib ?s ''web'' ?fs = (Some (NotFound ''web''), ?s, ?fs)"
    by blast
  from thm1 named io rec
  have "GetAppPort (fst (snd (LoadFromFile ?lib (NewAppPortStorage (dataFile ?s) 30) ?fs')))
      ''svc'' = (0, Some (NotFound ''svc''))"
    by blast
  then have c: "GetAppPort (fst (snd (LoadFromFile ?lib (NewAppPortStorage ''data/ports.json'' 30) ?fs')))
      ''svc'' = (0, Some (NotFound ''svc''))"
    by (simp only: s(1))
  from a b c show ?thesis by (simp only: simp_thms)
qed

subsection \<open>\<^verbatim>\<open>StartAutoSync\<close>\<close>

lemma sync_run_loops:
  assumes "0 < sint (syncInterval s)" and "\<not> stopClosed s" and "EvStop \<notin> set es"
  shows "\<exists>fs'. sync_run lib es (s, fs) = Inr (s\<lparr>wg := wg s + count_list es EvStart\<rparr>, fs')"
  using assms
proof (induction es arbitrary: s fs)
  case Nil
  then show ?case by simp
next
  case (Cons e es)
  show ?case
  proof (cases e)
    case EvStart
    have "\<exists>fs'. sync_run lib es (s\<lparr>wg := wg s + 1\<rparr>, fs)
        = Inr (s\<lparr>wg := wg s + 1\<rparr>\<lparr>wg := wg (s\<lparr>wg := wg s + 1\<rparr>) + count_list es EvStart\<rparr>, fs')"
      using Cons.prems by (intro Cons.IH) auto
    then show ?thesis
      using EvStart Cons.prems(1) by (simp add: StartAutoSync_def)
  next
    case EvTick
    have rest: "\<exists>fs'. sync_run lib es (s, fs1) = Inr (s\<lparr>wg := wg s + count_list es EvStart\<rparr>, fs')"
      for fs1
      using Cons.prems by (intro Cons.IH) auto
    show ?thesis
      using EvTick rest [of fs] rest [of "snd (saveToFile lib s fs)"]
      by (cases "0 < wg s") auto
  next
    case EvLoopExit
    have "\<exists>fs'. sync_run lib es (s, fs) = Inr (s\<lparr>wg := wg s + count_list es EvStart\<rparr>, fs')"
      using Cons.prems by (intro Cons.IH) auto
    then show ?thesis
      using EvLoopExit Cons.prems(2) by simp
  next
    case EvStop
    then show ?thesis using Cons.prems(3) by simp
  qed
qed

text \<open>
  Claim C9, as amended. \<^verbatim>\<open>StartAutoSync\<close> tests nothing: with a positive interval every
  call adds one flush goroutine to those running, so that in any sequence of events
  without \<^verbatim>\<open>StopAutoSync\<close> on a storage whose channel is open the number of flush
  goroutines grows by the number of calls of \<^verbatim>\<open>StartAutoSync\<close>. One goroutine runs
  exactly when it has been called once. With a non-positive interval the goroutine
  panics in \<^verbatim>\<open>time.NewTicker\<close>.
\<close>

theorem StartAutoSync_spec:
  "(0 < sint (syncInterval s) \<longrightarrow> StartAutoSync s = Inr (s\<lparr>wg := wg s + 1\<rparr>)) \<and>
   (sint (syncInterval s) \<le> 0 \<longrightarrow> StartAutoSync s = Inl TickerNonPositive) \<and>
   (0 < sint (syncInterval s) \<and> \<not> stopClosed s \<and> EvStop \<notin> set es \<longrightarrow>
      (\<exists>s' fs'. sync_run lib es (s, fs) = Inr (s', fs') \<and>
                wg s' = wg s + count_list es EvStart))"
proof (intro conjI impI)
  assume "0 < sint (syncInterval s) \<and> \<not> stopClosed s \<and> EvStop \<notin> set es"
  then obtain fs' where
    "sync_run lib es (s, fs) = Inr (s\<lparr>wg := wg s + count_list es EvStart\<rparr>, fs')"
    using sync_run_loops [of s es lib fs] by auto
  then show "\<exists>s' fs'. sync_run lib es (s, fs) = Inr (s', fs') \<and>
                wg s' = wg s + count_list es EvStart"
    by simp
qed (simp_all add: StartAutoSync_def)

theorem StartAutoSync_spec_witness:
  "StartAutoSync (NewAppPortStorage ''data/ports.json'' 60)
     = Inr ((NewAppPortStorage ''data/ports.json'' 60)\<lparr>wg := 1\<rparr>) \<and>
   StartAutoSync (NewAppPortStorage ''data/ports.json'' 0) = Inl TickerNonPositive \<and>
   (\<exists>s' fs'. sync_run (fixed_codec \<lparr>AppPorts = None, Timestamp = 0, Version = ''1.0''\<rparr> [123, 125] 0)
       [EvStart, EvTick] (NewAppPortStorage ''data/ports.json'' 60, working_fs Map.empty)
       = Inr (s', fs') \<and> wg s' = 1)"
  using StartAutoSync_spec [of "NewAppPortStorage ''data/ports.json'' 60" "[EvStart, EvTick]"
          "fixed_codec \<lparr>AppPorts = None, Timestamp = 0, Version = ''1.0''\<rparr> [123, 125] 0"
          "working_fs Map.empty"]
        StartAutoSync_spec [of "NewAppPortStorage ''data/ports.json'' 0"]
  by (simp add: NewAppPortStorage_def)

text \<open>
  The claim as first stated fails: a second call on a storage with one flush goroutine
  running is neither refused nor without effect; after two calls two flush goroutines
  run on the same storage.
\<close>

theorem StartAutoSync_counterexample:
  "StartAutoSync ((NewAppPortStorage ''data/ports.json'' 60)\<lparr>wg := 1\<rparr>)
     = Inr ((NewAppPortStorage ''data/ports.json'' 60)\<lparr>wg := 2\<rparr>) \<and>
   sync_run (fixed_codec \<lparr>AppPorts = None, Timestamp = 0, Version = ''1.0''\<rparr> [123, 125] 0)
     [EvStart, EvStart] (NewAppPortStorage ''data/ports.json'' 60, working_fs Map.empty)
     = Inr ((NewAppPortStorage ''data/ports.json'' 60)\<lparr>wg := 2\<rparr>, working_fs Map.empty)"
  by (simp add: StartAutoSync_def NewAppPortStorage_def)

end
